theory Spec2Isabelle
  imports Complex_Main
begin

section \<open>Data model\<close>

text \<open>
  Python floats. Only comparisons are performed on them (\<open>>=\<close> and \<open><=\<close> on the price),
  so a float is modelled by the real value it denotes, together with the three special
  values. A comparison with NaN is false, as in IEEE 754.
\<close>

datatype pyfloat = Finite real | PosInf | NegInf | NaN

fun float_le :: "pyfloat \<Rightarrow> pyfloat \<Rightarrow> bool" where
  "float_le NaN b = False"
| "float_le a NaN = False"
| "float_le NegInf b = True"
| "float_le a PosInf = True"
| "float_le (Finite x) (Finite y) = (x \<le> y)"
| "float_le PosInf b = False"
| "float_le (Finite x) NegInf = False"

definition float_ge :: "pyfloat \<Rightarrow> pyfloat \<Rightarrow> bool" where
  "float_ge a b = float_le b a"

text \<open>
  Python strings. A \<open>str\<close> is represented by the list of the bytes of its UTF-8 encoding, so
  two strings are equal exactly when their lists are, and the empty string is the empty
  list. \<open>str.lower()\<close> is the interpreter's Unicode lower-casing, not code of this
  program: the list endpoint takes it as its first argument \<open>lower\<close>, and what is proved of
  the endpoint holds for every such function.
\<close>

text \<open>
  The \<open>House\<close> schema. The request body carries \<open>id: Optional[int]\<close>, the dictionaries of
  \<open>data_records\<close> carry an integer id, so the record is polymorphic in the type of its id.
\<close>

record 'i house_rec =
  house_id :: 'i
  date :: string
  price :: pyfloat
  bedrooms :: pyfloat
  bathrooms :: pyfloat
  sqft_living :: int
  sqft_lot :: int
  floors :: pyfloat
  waterfront :: int
  view :: int
  condition :: int
  sqft_above :: int
  sqft_basement :: int
  yr_built :: int
  yr_renovated :: int
  street :: string
  city :: string
  statezip :: string
  country :: string

type_synonym House = "int option house_rec"
type_synonym house_dict = "int house_rec"
type_synonym data_records = "house_dict list"

datatype error =
    HTTPException nat string
  | ValueError
  | RequestValidationError

definition not_found :: error where
  "not_found = HTTPException 404 ''House not found''"

text \<open>\<open>house_data = house.dict(); house_data["id"] = new_id\<close>\<close>

definition set_id :: "int \<Rightarrow> 'i house_rec \<Rightarrow> house_dict" where
  "set_id i h =
     \<lparr> house_id = i, date = date h, price = price h, bedrooms = bedrooms h,
       bathrooms = bathrooms h, sqft_living = sqft_living h, sqft_lot = sqft_lot h,
       floors = floors h, waterfront = waterfront h, view = view h,
       condition = condition h, sqft_above = sqft_above h,
       sqft_basement = sqft_basement h, yr_built = yr_built h,
       yr_renovated = yr_renovated h, street = street h, city = city h,
       statezip = statezip h, country = country h \<rparr>"

text \<open>
  Start-up: \<open>data["id"] = data.index; data_records = data.to_dict(orient="records")\<close>.
  The index of a freshly read frame is \<open>0, 1, 2, ...\<close>, so every row gets its position.
\<close>

fun load_from :: "int \<Rightarrow> 'i house_rec list \<Rightarrow> data_records" where
  "load_from k [] = []"
| "load_from k (r # rs) = set_id k r # load_from (k + 1) rs"

definition bulk_load :: "'i house_rec list \<Rightarrow> data_records" where
  "bulk_load rows = load_from 0 rows"

section \<open>List slicing\<close>

text \<open>
  \<open>xs[start:stop]\<close> on a Python list: a negative index counts from the end, and both
  indices are then clamped to \<open>0 .. len(xs)\<close>; the slice is empty when the adjusted stop
  is not beyond the adjusted start.
\<close>

definition adjust_index :: "int \<Rightarrow> int \<Rightarrow> nat" where
  "adjust_index n i =
     (if i < 0 then (if i + n < 0 then 0 else nat (i + n))
      else if n \<le> i then nat n else nat i)"

definition py_slice :: "'a list \<Rightarrow> int \<Rightarrow> int \<Rightarrow> 'a list" where
  "py_slice xs start stop =
     (let n = int (length xs);
          s = adjust_index n start;
          e = adjust_index n stop
      in take (e - s) (drop s xs))"

section \<open>The endpoints\<close>

text \<open>
  Every endpoint takes the global list \<open>data_records\<close> as an argument, before the
  parameters of the request, and returns its response together with the list as it
  leaves it.
\<close>

definition filter_city ::
  "(string \<Rightarrow> string) \<Rightarrow> string option \<Rightarrow> data_records \<Rightarrow> data_records" where
  "filter_city lower c filtered_data =
     (case c of
        None \<Rightarrow> filtered_data
      | Some s \<Rightarrow> if s = [] then filtered_data
                  else [d \<leftarrow> filtered_data. lower (city d) = lower s])"

definition filter_statezip ::
  "(string \<Rightarrow> string) \<Rightarrow> string option \<Rightarrow> data_records \<Rightarrow> data_records" where
  "filter_statezip lower z filtered_data =
     (case z of
        None \<Rightarrow> filtered_data
      | Some s \<Rightarrow> if s = [] then filtered_data
                  else [d \<leftarrow> filtered_data. lower (statezip d) = lower s])"

definition filter_price_min :: "pyfloat option \<Rightarrow> data_records \<Rightarrow> data_records" where
  "filter_price_min price_min filtered_data =
     (case price_min of
        None \<Rightarrow> filtered_data
      | Some lo \<Rightarrow> [d \<leftarrow> filtered_data. float_ge (price d) lo])"

definition filter_price_max :: "pyfloat option \<Rightarrow> data_records \<Rightarrow> data_records" where
  "filter_price_max price_max filtered_data =
     (case price_max of
        None \<Rightarrow> filtered_data
      | Some hi \<Rightarrow> [d \<leftarrow> filtered_data. float_le (price d) hi])"

definition get_houses ::
  "(string \<Rightarrow> string) \<Rightarrow> data_records \<Rightarrow> int \<Rightarrow> int \<Rightarrow> string option \<Rightarrow> string option \<Rightarrow>
   pyfloat option \<Rightarrow> pyfloat option \<Rightarrow> (error + house_dict list) \<times> data_records" where
  "get_houses lower st page sz c z price_min price_max =
     (if \<not> 0 < page \<or> \<not> sz \<le> 100 then (Inl RequestValidationError, st)
      else
        let filtered_data =
              filter_price_max price_max
                (filter_price_min price_min (filter_statezip lower z (filter_city lower c st)));
            start = (page - 1) * sz;
            end' = start + sz
        in (Inr (py_slice filtered_data start end'), st))"

fun py_max :: "int list \<Rightarrow> error + int" where
  "py_max [] = Inl ValueError"
| "py_max (x # xs) = Inr (fold max xs x)"

definition create_house ::
  "data_records \<Rightarrow> House \<Rightarrow> (error + house_dict) \<times> data_records" where
  "create_house st house =
     (case py_max (map house_id st) of
        Inl e \<Rightarrow> (Inl e, st)
      | Inr m \<Rightarrow>
          let new_id = m + 1;
              house_data = set_id new_id house
          in (Inr house_data, st @ [house_data]))"

definition get_house :: "data_records \<Rightarrow> int \<Rightarrow> (error + house_dict) \<times> data_records" where
  "get_house st i =
     (case find (\<lambda>d. house_id d = i) st of
        None \<Rightarrow> (Inl not_found, st)
      | Some house \<Rightarrow> (Inr house, st))"

text \<open>
  The loop of \<open>update_house\<close>: the first dictionary with the id is replaced and the loop
  is left; \<open>None\<close> when the loop ends without a match.
\<close>

fun update_loop :: "int \<Rightarrow> House \<Rightarrow> data_records \<Rightarrow> (house_dict \<times> data_records) option" where
  "update_loop i updated_house [] = None"
| "update_loop i updated_house (house # rest) =
     (if house_id house = i
      then (let updated_data = set_id i updated_house in Some (updated_data, updated_data # rest))
      else (case update_loop i updated_house rest of
              None \<Rightarrow> None
            | Some (r, rest') \<Rightarrow> Some (r, house # rest')))"

definition update_house ::
  "data_records \<Rightarrow> int \<Rightarrow> House \<Rightarrow> (error + house_dict) \<times> data_records" where
  "update_house st i updated_house =
     (case update_loop i updated_house st of
        None \<Rightarrow> (Inl not_found, st)
      | Some (r, st') \<Rightarrow> (Inr r, st'))"

text \<open>The loop of \<open>delete_house\<close>: the first dictionary with the id is removed.\<close>

fun delete_loop :: "int \<Rightarrow> data_records \<Rightarrow> data_records option" where
  "delete_loop i [] = None"
| "delete_loop i (house # rest) =
     (if house_id house = i then Some rest
      else (case delete_loop i rest of
              None \<Rightarrow> None
            | Some rest' \<Rightarrow> Some (house # rest')))"

definition delete_house :: "data_records \<Rightarrow> int \<Rightarrow> (error + string) \<times> data_records" where
  "delete_house st i =
     (case delete_loop i st of
        None \<Rightarrow> (Inl not_found, st)
      | Some st' \<Rightarrow> (Inr ''House deleted'', st'))"

section \<open>A small store for concrete runs\<close>

text \<open>
  For the concrete runs, whose strings are ASCII: on such a string \<open>str.lower()\<close> replaces
  the letters \<open>A\<close> to \<open>Z\<close> by \<open>a\<close> to \<open>z\<close> and keeps every other character.
\<close>

definition ascii_lower_char :: "char \<Rightarrow> char" where
  "ascii_lower_char c =
     (case map_of (zip ''ABCDEFGHIJKLMNOPQRSTUVWXYZ'' ''abcdefghijklmnopqrstuvwxyz'') c of
        Some l \<Rightarrow> l
      | None \<Rightarrow> c)"

definition ascii_lower :: "string \<Rightarrow> string" where
  "ascii_lower s = map ascii_lower_char s"

text \<open>
  Three rows in the shape of the CSV file; the first two are the store of the
  specification's example (Austin at 200000 and at 400000).
\<close>

definition sample_house :: "string \<Rightarrow> real \<Rightarrow> House" where
  "sample_house c p =
     \<lparr> house_id = None, date = ''2014-05-02 00:00:00'', price = Finite p,
       bedrooms = Finite 3, bathrooms = Finite 1.5, sqft_living = 1340, sqft_lot = 7912,
       floors = Finite 1.5, waterfront = 0, view = 0, condition = 3, sqft_above = 1340,
       sqft_basement = 0, yr_built = 1955, yr_renovated = 2005,
       street = ''18810 Densmore Ave N'', city = c, statezip = ''WA 98133'',
       country = ''USA'' \<rparr>"

definition sample_rows :: "House list" where
  "sample_rows =
     [sample_house ''Austin'' 200000, sample_house ''Austin'' 400000,
      sample_house ''SEATTLE'' 350000]"

definition sample_store :: data_records where
  "sample_store = bulk_load sample_rows"

definition dallas_body :: House where
  "dallas_body = (sample_house ''Dallas'' 500000)\<lparr>house_id := Some 7\<rparr>"

text \<open>
  The stores the program can be in: the list built at start-up, changed by any sequence of
  \<open>create_house\<close>, \<open>update_house\<close> and \<open>delete_house\<close> calls (the two reading endpoints
  leave the list as it is).
\<close>

inductive reachable :: "data_records \<Rightarrow> bool" where
  loaded: "reachable (bulk_load (rows :: House list))"
| created: "reachable st \<Longrightarrow> reachable (snd (create_house st house))"
| updated: "reachable st \<Longrightarrow> reachable (snd (update_house st i house))"
| deleted: "reachable st \<Longrightarrow> reachable (snd (delete_house st i))"

text \<open>
  The guards of \<open>get_houses\<close> as one predicate on a record: the conjunction of the city
  match, the statezip match and the two price bounds, where a string filter runs only for
  a parameter that is truthy (\<open>if city:\<close>, so neither \<open>None\<close> nor the empty string) and a
  price bound for a parameter that is not \<open>None\<close>.
\<close>

definition selected ::
  "(string \<Rightarrow> string) \<Rightarrow> string option \<Rightarrow> string option \<Rightarrow> pyfloat option \<Rightarrow>
   pyfloat option \<Rightarrow> house_dict \<Rightarrow> bool" where
  "selected lower c z price_min price_max d =
     ((case c of None \<Rightarrow> True | Some s \<Rightarrow> s = [] \<or> lower (city d) = lower s) \<and>
      (case z of None \<Rightarrow> True | Some s \<Rightarrow> s = [] \<or> lower (statezip d) = lower s) \<and>
      (case price_min of None \<Rightarrow> True | Some lo \<Rightarrow> float_ge (price d) lo) \<and>
      (case price_max of None \<Rightarrow> True | Some hi \<Rightarrow> float_le (price d) hi))"

text \<open>
  The specification's wording taken literally: every parameter that is supplied is a
  filter, so a city or statezip supplied as a string, the empty one included, selects the
  records whose value equals it after lower-casing both.
\<close>

definition matches_supplied ::
  "(string \<Rightarrow> string) \<Rightarrow> string option \<Rightarrow> string option \<Rightarrow> pyfloat option \<Rightarrow>
   pyfloat option \<Rightarrow> house_dict \<Rightarrow> bool" where
  "matches_supplied lower c z price_min price_max d =
     ((case c of None \<Rightarrow> True | Some s \<Rightarrow> lower (city d) = lower s) \<and>
      (case z of None \<Rightarrow> True | Some s \<Rightarrow> lower (statezip d) = lower s) \<and>
      (case price_min of None \<Rightarrow> True | Some lo \<Rightarrow> float_ge (price d) lo) \<and>
      (case price_max of None \<Rightarrow> True | Some hi \<Rightarrow> float_le (price d) hi))"

text \<open>A store of twelve records, enough for more than one page of ten.\<close>

definition big_store :: data_records where
  "big_store = bulk_load (replicate 12 (sample_house ''Austin'' 200000))"

section \<open>Auxiliary facts\<close>

lemma set_id_sel [simp]:
  "house_id (set_id i h) = i" "date (set_id i h) = date h" "price (set_id i h) = price h"
  "bedrooms (set_id i h) = bedrooms h" "bathrooms (set_id i h) = bathrooms h"
  "sqft_living (set_id i h) = sqft_living h" "sqft_lot (set_id i h) = sqft_lot h"
  "floors (set_id i h) = floors h" "waterfront (set_id i h) = waterfront h"
  "view (set_id i h) = view h" "condition (set_id i h) = condition h"
  "sqft_above (set_id i h) = sqft_above h" "sqft_basement (set_id i h) = sqft_basement h"
  "yr_built (set_id i h) = yr_built h" "yr_renovated (set_id i h) = yr_renovated h"
  "street (set_id i h) = street h" "city (set_id i h) = city h"
  "statezip (set_id i h) = statezip h" "country (set_id i h) = country h"
  by (simp_all add: set_id_def)

lemma py_max_Max: "xs \<noteq> [] \<Longrightarrow> py_max xs = Inr (Max (set xs))"
  by (cases xs) (simp_all add: Max.set_eq_fold del: set_simps)

lemma find_append_fresh:
  "\<forall>x\<in>set xs. \<not> P x \<Longrightarrow> P y \<Longrightarrow> find P (xs @ [y]) = Some y"
  by (induction xs) auto

lemma create_house_nonempty:
  assumes "st \<noteq> []"
  shows "create_house st h =
           (Inr (set_id (Max (house_id ` set st) + 1) h),
            st @ [set_id (Max (house_id ` set st) + 1) h])"
  using assms by (simp add: create_house_def py_max_Max Let_def)

lemma ids_below_new:
  assumes "x \<in> set (st :: data_records)"
  shows "house_id x < Max (house_id ` set st) + 1"
proof -
  have "house_id x \<le> Max (house_id ` set st)"
    using assms by (intro Max_ge) auto
  then show ?thesis by simp
qed

lemma sample_store_eval:
  "sample_store =
     [set_id 0 (sample_house ''Austin'' 200000), set_id 1 (sample_house ''Austin'' 400000),
      set_id 2 (sample_house ''SEATTLE'' 350000)]"
  by (simp add: sample_store_def bulk_load_def sample_rows_def)

lemma first_match_split:
  assumes "i \<in> house_id ` set (st :: data_records)"
  shows "\<exists>pre x post. st = pre @ x # post \<and> house_id x = i \<and> i \<notin> house_id ` set pre"
proof -
  from assms have "\<exists>x\<in>set st. house_id x = i" by auto
  from split_list_first_prop [OF this]
  obtain pre x post where st: "st = pre @ x # post" and x: "house_id x = i"
      and pre: "\<forall>y\<in>set pre. house_id y \<noteq> i"
    by blast
  from pre have "i \<notin> house_id ` set pre" by auto
  with st x have "st = pre @ x # post \<and> house_id x = i \<and> i \<notin> house_id ` set pre"
    by simp
  then show ?thesis by (intro exI)
qed

lemma find_first_match:
  "i \<notin> house_id ` set pre \<Longrightarrow> house_id x = i \<Longrightarrow>
     find (\<lambda>d. house_id d = i) (pre @ x # post) = Some x"
  by (induction pre) auto

lemma find_no_match:
  "i \<notin> house_id ` set st \<Longrightarrow> find (\<lambda>d. house_id d = i) st = None"
  by (induction st) auto

lemma update_loop_first_match:
  "i \<notin> house_id ` set pre \<Longrightarrow> house_id x = i \<Longrightarrow>
     update_loop i h (pre @ x # post) = Some (set_id i h, pre @ set_id i h # post)"
  by (induction pre) (auto simp: Let_def)

lemma update_loop_no_match:
  "i \<notin> house_id ` set st \<Longrightarrow> update_loop i h st = None"
  by (induction st) auto

lemma delete_loop_first_match:
  "i \<notin> house_id ` set pre \<Longrightarrow> house_id x = i \<Longrightarrow>
     delete_loop i (pre @ x # post) = Some (pre @ post)"
  by (induction pre) auto

lemma delete_loop_no_match:
  "i \<notin> house_id ` set st \<Longrightarrow> delete_loop i st = None"
  by (induction st) auto

lemma get_house_present:
  "i \<notin> house_id ` set pre \<Longrightarrow> house_id x = i \<Longrightarrow>
     get_house (pre @ x # post) i = (Inr x, pre @ x # post)"
  by (simp add: get_house_def find_first_match)

lemma get_house_absent:
  "i \<notin> house_id ` set st \<Longrightarrow> get_house st i = (Inl not_found, st)"
  by (simp add: get_house_def find_no_match)

lemma update_house_present:
  "i \<notin> house_id ` set pre \<Longrightarrow> house_id x = i \<Longrightarrow>
     update_house (pre @ x # post) i h = (Inr (set_id i h), pre @ set_id i h # post)"
  by (simp add: update_house_def update_loop_first_match)

lemma update_house_absent:
  "i \<notin> house_id ` set st \<Longrightarrow> update_house st i h = (Inl not_found, st)"
  by (simp add: update_house_def update_loop_no_match)

lemma delete_house_present:
  "i \<notin> house_id ` set pre \<Longrightarrow> house_id x = i \<Longrightarrow>
     delete_house (pre @ x # post) i = (Inr ''House deleted'', pre @ post)"
  by (simp add: delete_house_def delete_loop_first_match)

lemma delete_house_absent:
  "i \<notin> house_id ` set st \<Longrightarrow> delete_house st i = (Inl not_found, st)"
  by (simp add: delete_house_def delete_loop_no_match)

lemma update_sample_eval:
  "update_house sample_store 0 dallas_body =
     (Inr (set_id 0 dallas_body), sample_store[0 := set_id 0 dallas_body])"
  by (simp add: update_house_def sample_store_eval Let_def)

lemma load_from_lower: "x \<in> set (load_from k rows) \<Longrightarrow> k \<le> house_id x"
proof (induction rows arbitrary: k)
  case Nil
  then show ?case by simp
next
  case (Cons r rows)
  from Cons.prems have "x = set_id k r \<or> x \<in> set (load_from (k + 1) rows)"
    by simp
  then show ?case
  proof
    assume "x = set_id k r"
    then show ?thesis by simp
  next
    assume "x \<in> set (load_from (k + 1) rows)"
    from Cons.IH [OF this] show ?thesis by simp
  qed
qed

lemma distinct_load_from: "distinct (map house_id (load_from k rows))"
proof (induction rows arbitrary: k)
  case Nil
  then show ?case by simp
next
  case (Cons r rows)
  have "k \<notin> house_id ` set (load_from (k + 1) rows)"
    using load_from_lower [of _ "k + 1" rows] by fastforce
  with Cons.IH [of "k + 1"] show ?case by simp
qed

lemma distinct_create:
  assumes "distinct (map house_id st)"
  shows "distinct (map house_id (snd (create_house st h)))"
proof (cases "st = []")
  case True
  then show ?thesis by (simp add: create_house_def)
next
  case False
  have "Max (house_id ` set st) + 1 \<notin> house_id ` set st"
    using ids_below_new [of _ st] by fastforce
  with assms show ?thesis
    by (simp add: create_house_nonempty [OF False])
qed

lemma ids_update: "map house_id (snd (update_house st i h)) = map house_id st"
proof (cases "i \<in> house_id ` set st")
  case True
  from first_match_split [OF True] obtain pre x post
    where st: "st = pre @ x # post" and x: "house_id x = i"
      and pre: "i \<notin> house_id ` set pre"
    by blast
  show ?thesis
    unfolding st by (simp add: update_house_present [OF pre x] x)
next
  case False
  then show ?thesis by (simp add: update_house_absent)
qed

lemma delete_house_cases:
  "(i \<notin> house_id ` set st \<and> delete_house st i = (Inl not_found, st)) \<or>
   (\<exists>pre x post. st = pre @ x # post \<and> house_id x = i \<and> i \<notin> house_id ` set pre \<and>
      delete_house st i = (Inr ''House deleted'', pre @ post))"
proof (cases "i \<in> house_id ` set st")
  case True
  from first_match_split [OF True] obtain pre x post
    where st: "st = pre @ x # post" and x: "house_id x = i"
      and pre: "i \<notin> house_id ` set pre"
    by blast
  have "delete_house st i = (Inr ''House deleted'', pre @ post)"
    unfolding st by (rule delete_house_present [OF pre x])
  with st x pre have "st = pre @ x # post \<and> house_id x = i \<and> i \<notin> house_id ` set pre \<and>
      delete_house st i = (Inr ''House deleted'', pre @ post)"
    by simp
  then have "\<exists>pre x post. st = pre @ x # post \<and> house_id x = i \<and> i \<notin> house_id ` set pre \<and>
      delete_house st i = (Inr ''House deleted'', pre @ post)"
    by (intro exI)
  then show ?thesis ..
next
  case False
  then show ?thesis by (simp add: delete_house_absent)
qed

lemma delete_keeps_subset: "set (snd (delete_house st i)) \<subseteq> set st"
  using delete_house_cases [of i st] by auto

lemma distinct_delete:
  assumes "distinct (map house_id st)"
  shows "distinct (map house_id (snd (delete_house st i)))"
  using delete_house_cases [of i st] assms by auto

lemma delete_removes_id:
  assumes "distinct (map house_id st)" and "delete_house st i = (Inr msg, st')"
  shows "i \<notin> house_id ` set st'"
  using delete_house_cases [of i st] assms by auto

lemma reachable_distinct: "reachable st \<Longrightarrow> distinct (map house_id st)"
proof (induction rule: reachable.induct)
  case (loaded rows)
  show ?case by (simp add: bulk_load_def distinct_load_from)
next
  case (created st house)
  from created.IH show ?case by (rule distinct_create)
next
  case (updated st i house)
  from updated.IH show ?case by (simp add: ids_update)
next
  case (deleted st i)
  from deleted.IH show ?case by (rule distinct_delete)
qed

lemma set_py_slice: "set (py_slice xs a b) \<subseteq> set xs"
proof -
  have "set (take m (drop n xs)) \<subseteq> set xs" for m n
    using set_take_subset [of m "drop n xs"] set_drop_subset [of n xs] by blast
  then show ?thesis by (simp add: py_slice_def Let_def)
qed

lemma set_filters:
  "set (filter_city lower c st) \<subseteq> set st" "set (filter_statezip lower z st) \<subseteq> set st"
  "set (filter_price_min lo st) \<subseteq> set st" "set (filter_price_max hi st) \<subseteq> set st"
  by (auto simp: filter_city_def filter_statezip_def filter_price_min_def
      filter_price_max_def split: option.splits)

lemma get_houses_from_store:
  assumes "fst (get_houses lower st page sz c z lo hi) = Inr rs"
  shows "set rs \<subseteq> set st"
proof -
  let ?F = "filter_price_max hi (filter_price_min lo (filter_statezip lower z (filter_city lower c st)))"
  have "set ?F \<subseteq> set st"
    using set_filters(1) [of lower c st] set_filters(2) [of lower z "filter_city lower c st"]
      set_filters(3) [of lo "filter_statezip lower z (filter_city lower c st)"]
      set_filters(4) [of hi "filter_price_min lo (filter_statezip lower z (filter_city lower c st))"]
    by blast
  moreover have "rs = py_slice ?F ((page - 1) * sz) ((page - 1) * sz + sz)"
    using assms by (simp add: get_houses_def Let_def split: if_splits)
  ultimately show ?thesis
    using set_py_slice [of ?F] by blast
qed

lemma get_houses_store: "snd (get_houses lower st page sz c z lo hi) = st"
  by (simp add: get_houses_def Let_def)

lemma Max_ids_after_delete:
  assumes "delete_house st d = (Inr msg, st1)" and "d < Max (house_id ` set st)"
  shows "st1 \<noteq> [] \<and> Max (house_id ` set st1) = Max (house_id ` set st)"
proof -
  from delete_house_cases [of d st] assms(1) obtain pre x post
    where st: "st = pre @ x # post" and x: "house_id x = d" and st1: "st1 = pre @ post"
    by auto
  let ?M = "Max (house_id ` set st)"
  have "?M \<in> house_id ` set st"
    by (rule Max_in) (simp_all add: st)
  with assms(2) x have M_in: "?M \<in> house_id ` set st1"
    by (auto simp: st st1)
  then have ne: "st1 \<noteq> []" by auto
  have "y \<le> ?M" if "y \<in> house_id ` set st1" for y
  proof -
    from that have "y \<in> house_id ` set st" by (auto simp: st st1)
    then show ?thesis by (intro Max_ge) simp_all
  qed
  with M_in have "Max (house_id ` set st1) = ?M"
    by (intro Max_eqI) simp_all
  with ne show ?thesis by simp
qed

lemma delete_created:
  assumes "st \<noteq> []"
  shows "delete_house (st @ [set_id (Max (house_id ` set st) + 1) h])
           (Max (house_id ` set st) + 1) = (Inr ''House deleted'', st)"
proof -
  have "Max (house_id ` set st) + 1 \<notin> house_id ` set st"
    using ids_below_new [of _ st] by fastforce
  from delete_house_present [OF this, of "set_id (Max (house_id ` set st) + 1) h" "[]"]
  show ?thesis by simp
qed

lemma filter_city_pred:
  "filter_city lower c xs =
     filter (\<lambda>d. case c of None \<Rightarrow> True | Some s \<Rightarrow> s = [] \<or> lower (city d) = lower s) xs"
  by (simp add: filter_city_def split: option.splits)

lemma filter_statezip_pred:
  "filter_statezip lower z xs =
     filter (\<lambda>d. case z of None \<Rightarrow> True | Some s \<Rightarrow> s = [] \<or> lower (statezip d) = lower s) xs"
  by (simp add: filter_statezip_def split: option.splits)

lemma filter_price_min_pred:
  "filter_price_min lo xs =
     filter (\<lambda>d. case lo of None \<Rightarrow> True | Some l \<Rightarrow> float_ge (price d) l) xs"
  by (simp add: filter_price_min_def split: option.splits)

lemma filter_price_max_pred:
  "filter_price_max hi xs =
     filter (\<lambda>d. case hi of None \<Rightarrow> True | Some h \<Rightarrow> float_le (price d) h) xs"
  by (simp add: filter_price_max_def split: option.splits)

lemma filters_conjunction:
  "filter_price_max hi (filter_price_min lo (filter_statezip lower z (filter_city lower c st))) =
     filter (selected lower c z lo hi) st"
  unfolding filter_city_pred filter_statezip_pred filter_price_min_pred filter_price_max_pred
    filter_filter selected_def
  by (rule filter_cong) auto

lemma get_houses_valid:
  assumes "0 < page" and "sz \<le> 100"
  shows "get_houses lower st page sz c z lo hi =
           (Inr (py_slice (filter (selected lower c z lo hi) st)
                   ((page - 1) * sz) ((page - 1) * sz + sz)), st)"
  using assms by (simp add: get_houses_def Let_def filters_conjunction)

lemma py_slice_nonneg:
  assumes "0 \<le> a" and "0 \<le> n"
  shows "py_slice xs a (a + n) = take (nat n) (drop (nat a) xs)"
proof (cases "int (length xs) \<le> a")
  case True
  with assms show ?thesis
    by (simp add: py_slice_def adjust_index_def Let_def)
next
  case False
  with assms have s: "adjust_index (int (length xs)) a = nat a"
    by (simp add: adjust_index_def)
  from assms have e: "adjust_index (int (length xs)) (a + n) = min (nat a + nat n) (length xs)"
    by (auto simp: adjust_index_def nat_add_distrib)
  have "min (nat a + nat n) (length xs) - nat a = min (nat n) (length xs - nat a)"
    by arith
  then have "take (min (nat a + nat n) (length xs) - nat a) (drop (nat a) xs) =
        take (min (nat n) (length (drop (nat a) xs))) (drop (nat a) xs)"
    by simp
  also have "\<dots> = take (nat n) (drop (nat a) xs)"
    by (simp add: min_def)
  finally show ?thesis
    by (simp add: py_slice_def Let_def s e)
qed

lemma py_slice_beyond:
  assumes "int (length xs) \<le> a"
  shows "py_slice xs a b = []"
  using assms by (simp add: py_slice_def adjust_index_def Let_def)

lemma py_slice_negative_stop:
  assumes "n < 0"
  shows "py_slice xs 0 n = take (length xs - nat (- n)) xs"
proof -
  have "adjust_index (int (length xs)) 0 = 0"
    by (simp add: adjust_index_def)
  moreover have "adjust_index (int (length xs)) n = length xs - nat (- n)"
    using assms by (auto simp: adjust_index_def)
  ultimately show ?thesis
    by (simp add: py_slice_def Let_def)
qed

lemma length_load_from: "length (load_from k rows) = length rows"
  by (induction rows arbitrary: k) simp_all

lemma length_big_store: "length big_store = 12"
  by (simp add: big_store_def bulk_load_def length_load_from)

lemma selected_none: "filter (selected lower None None None None) st = st"
  by (simp add: selected_def)

lemma seattle_query_eval:
  "get_houses ascii_lower sample_store 1 10 (Some ''Seattle'') None (Some (Finite 300000))
     (Some (Finite 350000)) =
     (Inr [set_id 2 (sample_house ''SEATTLE'' 350000)], sample_store)"
  by (simp add: get_houses_def filter_city_def filter_statezip_def filter_price_min_def
      filter_price_max_def ascii_lower_def ascii_lower_char_def sample_store_eval sample_house_def
      float_ge_def py_slice_def adjust_index_def Let_def)

lemma empty_city_query_eval:
  "get_houses ascii_lower sample_store 1 10 (Some '''') None None None = (Inr sample_store, sample_store)"
  by (simp add: get_houses_def filter_city_def filter_statezip_def filter_price_min_def
      filter_price_max_def sample_store_eval py_slice_def adjust_index_def Let_def)

text \<open>
  A negative \<open>size\<close> passes the check \<open>le=100\<close>. On page 1 the slice is then
  \<open>filtered_data[0:size]\<close> with a negative stop, which Python counts from the end: all
  records but the last \<open>-size\<close> ones.
\<close>

lemma get_houses_negative_size:
  assumes "sz < 0"
  shows "get_houses lower st 1 sz c z lo hi =
           (Inr (take (length (filter (selected lower c z lo hi) st) - nat (- sz))
                   (filter (selected lower c z lo hi) st)), st)"
proof -
  from assms have "sz \<le> 100" by simp
  from get_houses_valid [OF _ this, of 1 lower st c z lo hi] show ?thesis
    by (simp add: py_slice_negative_stop [OF assms])
qed

section \<open>Properties of the endpoints\<close>

text \<open>
  Claim C8. On a non-empty store whose largest id is \<open>M\<close>, \<open>create_house\<close> appends a
  record with id \<open>M + 1\<close>; on the empty store \<open>max([])\<close> raises \<open>ValueError\<close>, so the call
  fails, returns no record and leaves the store empty.
\<close>

theorem create_house_assigns_max_plus_one:
  "(st \<noteq> [] \<longrightarrow>
      (\<exists>r. create_house st h = (Inr r, st @ [r]) \<and>
           house_id r = 1 + Max (house_id ` set st))) \<and>
   create_house [] h = (Inl ValueError, [])"
  by (simp add: create_house_nonempty) (simp add: create_house_def)

theorem create_house_assigns_max_plus_one_witness:
  "sample_store \<noteq> [] \<and>
   fst (create_house sample_store (sample_house ''Dallas'' 1)) =
     Inr (set_id 3 (sample_house ''Dallas'' 1)) \<and>
   create_house [] (sample_house ''Dallas'' 1) = (Inl ValueError, [])"
proof -
  have ne: "sample_store \<noteq> []" by (simp add: sample_store_eval)
  have mx: "Max (house_id ` set sample_store) = 2" by (simp add: sample_store_eval)
  from create_house_assigns_max_plus_one [of sample_store "sample_house ''Dallas'' 1"] ne
  obtain r where r: "create_house sample_store (sample_house ''Dallas'' 1) = (Inr r, sample_store @ [r])"
      "house_id r = 1 + Max (house_id ` set sample_store)"
      and e: "create_house [] (sample_house ''Dallas'' 1) = (Inl ValueError, [])"
    by blast
  have "r = set_id 3 (sample_house ''Dallas'' 1)"
    using r ne by (simp add: create_house_nonempty mx)
  with r e ne show ?thesis by simp
qed

text \<open>
  Claim C1. On a non-empty store, \<open>create_house\<close> returns a record that agrees with the
  request body on every field but the id, its id is carried by no record that was in the
  store, and \<open>get_house\<close> on that id in the resulting store returns the same record.
\<close>

theorem create_house_round_trip:
  assumes "st \<noteq> []" and "create_house st h = (res, st')"
  shows "\<exists>r. res = Inr r \<and>
           date r = date h \<and> price r = price h \<and> bedrooms r = bedrooms h \<and>
           bathrooms r = bathrooms h \<and> sqft_living r = sqft_living h \<and>
           sqft_lot r = sqft_lot h \<and> floors r = floors h \<and>
           waterfront r = waterfront h \<and> view r = view h \<and>
           condition r = condition h \<and> sqft_above r = sqft_above h \<and>
           sqft_basement r = sqft_basement h \<and> yr_built r = yr_built h \<and>
           yr_renovated r = yr_renovated h \<and> street r = street h \<and>
           city r = city h \<and> statezip r = statezip h \<and> country r = country h \<and>
           house_id r \<notin> house_id ` set st \<and>
           get_house st' (house_id r) = (Inr r, st')"
proof -
  define n where "n = Max (house_id ` set st) + 1"
  have res: "res = Inr (set_id n h)" and st': "st' = st @ [set_id n h]"
    using assms by (simp_all add: create_house_nonempty n_def)
  have fresh: "\<forall>x\<in>set st. house_id x \<noteq> n"
    using ids_below_new [of _ st] unfolding n_def by fastforce
  then have "find (\<lambda>d. house_id d = n) (st @ [set_id n h]) = Some (set_id n h)"
    by (intro find_append_fresh) simp_all
  then have "get_house st' n = (Inr (set_id n h), st')"
    by (simp add: get_house_def st')
  moreover have "n \<notin> house_id ` set st"
    using fresh by auto
  ultimately show ?thesis
    by (simp add: res)
qed

theorem create_house_round_trip_witness:
  "sample_store \<noteq> [] \<and>
   get_house (snd (create_house sample_store (sample_house ''Dallas'' 1))) 3 =
     (Inr (set_id 3 (sample_house ''Dallas'' 1)),
      sample_store @ [set_id 3 (sample_house ''Dallas'' 1)])"
proof -
  have ne: "sample_store \<noteq> []" by (simp add: sample_store_eval)
  have mx: "Max (house_id ` set sample_store) = 2" by (simp add: sample_store_eval)
  have c: "create_house sample_store (sample_house ''Dallas'' 1) =
             (Inr (set_id 3 (sample_house ''Dallas'' 1)),
              sample_store @ [set_id 3 (sample_house ''Dallas'' 1)])"
    using ne by (simp add: create_house_nonempty mx)
  from create_house_round_trip [OF ne c] show ?thesis
    using ne c by auto
qed

text \<open>
  Claim C5. When the id is in the store, \<open>update_house\<close> puts at the position of the first
  record with that id a record that carries the id of the path, whatever id the body
  carries, and the body's value in every other field; the record returned is that stored
  record, and it is what \<open>get_house\<close> then returns for the id.
\<close>

theorem update_house_replaces_first_match:
  assumes "i \<in> house_id ` set st" and "update_house st i h = (res, st')"
  shows "\<exists>r k. res = Inr r \<and> house_id r = i \<and>
           date r = date h \<and> price r = price h \<and> bedrooms r = bedrooms h \<and>
           bathrooms r = bathrooms h \<and> sqft_living r = sqft_living h \<and>
           sqft_lot r = sqft_lot h \<and> floors r = floors h \<and>
           waterfront r = waterfront h \<and> view r = view h \<and>
           condition r = condition h \<and> sqft_above r = sqft_above h \<and>
           sqft_basement r = sqft_basement h \<and> yr_built r = yr_built h \<and>
           yr_renovated r = yr_renovated h \<and> street r = street h \<and>
           city r = city h \<and> statezip r = statezip h \<and> country r = country h \<and>
           k < length st \<and> house_id (st ! k) = i \<and> (\<forall>j<k. house_id (st ! j) \<noteq> i) \<and>
           st' = st[k := r] \<and> get_house st' i = (Inr r, st')"
proof -
  from first_match_split [OF assms(1)] obtain pre x post
    where st: "st = pre @ x # post" and x: "house_id x = i"
      and pre: "i \<notin> house_id ` set pre"
    by blast
  let ?r = "set_id i h"
  have res: "res = Inr ?r" and st': "st' = pre @ ?r # post"
    using assms(2) update_house_present [OF pre x, of post h] by (simp_all add: st)
  have k: "length pre < length st" "house_id (st ! length pre) = i"
    by (simp_all add: st x)
  have before: "\<forall>j<length pre. house_id (st ! j) \<noteq> i"
    using pre by (auto simp: st nth_append)
  have upd: "st' = st[length pre := ?r]"
    by (simp add: st st')
  have get: "get_house st' i = (Inr ?r, st')"
    unfolding st' by (rule get_house_present [OF pre]) simp
  show ?thesis
    apply (rule exI [of _ ?r])
    apply (rule exI [of _ "length pre"])
    using res k before upd get by simp
qed

theorem update_house_replaces_first_match_witness:
  "0 \<in> house_id ` set sample_store \<and>
   house_id dallas_body = Some 7 \<and>
   update_house sample_store 0 dallas_body =
     (Inr (set_id 0 dallas_body), sample_store[0 := set_id 0 dallas_body]) \<and>
   get_house (sample_store[0 := set_id 0 dallas_body]) 0 =
     (Inr (set_id 0 dallas_body), sample_store[0 := set_id 0 dallas_body]) \<and>
   city (set_id 0 dallas_body) = ''Dallas''"
proof -
  have p: "0 \<in> house_id ` set sample_store"
    by (simp add: sample_store_eval)
  from update_house_replaces_first_match [OF p update_sample_eval]
  have "get_house (sample_store[0 := set_id 0 dallas_body]) 0 =
     (Inr (set_id 0 dallas_body), sample_store[0 := set_id 0 dallas_body])"
    by auto
  with p update_sample_eval show ?thesis
    by (simp add: dallas_body_def sample_house_def)
qed

text \<open>
  Claim C6. \<open>get_house\<close>, \<open>update_house\<close> and \<open>delete_house\<close> answer with the 404 exception and
  its fixed detail exactly when no record of the store has the id, and the store is then
  left as it was.
\<close>

theorem not_found_iff_absent:
  "(fst (get_house st i) = Inl (HTTPException 404 ''House not found'') \<longleftrightarrow>
      i \<notin> house_id ` set st) \<and>
   (fst (update_house st i h) = Inl (HTTPException 404 ''House not found'') \<longleftrightarrow>
      i \<notin> house_id ` set st) \<and>
   (fst (delete_house st i) = Inl (HTTPException 404 ''House not found'') \<longleftrightarrow>
      i \<notin> house_id ` set st) \<and>
   (i \<notin> house_id ` set st \<longrightarrow>
      snd (get_house st i) = st \<and> snd (update_house st i h) = st \<and>
      snd (delete_house st i) = st)"
proof (cases "i \<in> house_id ` set st")
  case True
  from first_match_split [OF True] obtain pre x post
    where st: "st = pre @ x # post" and x: "house_id x = i"
      and pre: "i \<notin> house_id ` set pre"
    by blast
  have "fst (get_house st i) = Inr x"
    unfolding st by (simp add: get_house_present [OF pre x])
  moreover have "fst (update_house st i h) = Inr (set_id i h)"
    unfolding st by (simp add: update_house_present [OF pre x])
  moreover have "fst (delete_house st i) = Inr ''House deleted''"
    unfolding st by (simp add: delete_house_present [OF pre x])
  ultimately show ?thesis
    using True by simp
next
  case False
  have "get_house st i = (Inl not_found, st)"
    using False by (rule get_house_absent)
  moreover have "update_house st i h = (Inl not_found, st)"
    using False by (rule update_house_absent)
  moreover have "delete_house st i = (Inl not_found, st)"
    using False by (rule delete_house_absent)
  ultimately show ?thesis
    using False by (simp add: not_found_def)
qed

theorem not_found_iff_absent_witness:
  "7 \<notin> house_id ` set sample_store \<and>
   fst (get_house sample_store 7) = Inl (HTTPException 404 ''House not found'') \<and>
   fst (update_house sample_store 7 dallas_body) = Inl (HTTPException 404 ''House not found'') \<and>
   fst (delete_house sample_store 7) = Inl (HTTPException 404 ''House not found'') \<and>
   snd (get_house sample_store 7) = sample_store \<and>
   snd (update_house sample_store 7 dallas_body) = sample_store \<and>
   snd (delete_house sample_store 7) = sample_store \<and>
   1 \<in> house_id ` set sample_store \<and>
   fst (delete_house sample_store 1) \<noteq> Inl (HTTPException 404 ''House not found'')"
proof -
  have a: "7 \<notin> house_id ` set sample_store" and p: "1 \<in> house_id ` set sample_store"
    by (simp_all add: sample_store_eval)
  show ?thesis
    using not_found_iff_absent [of sample_store 7 dallas_body]
      not_found_iff_absent [of sample_store 1 dallas_body] a p
    by blast
qed

text \<open>
  Claim C9. Running \<open>update_house\<close> a second time with the same id and body gives the same
  response and the same store as the first run.
\<close>

theorem update_house_idempotent:
  assumes "update_house st i h = (res, st')"
  shows "update_house st' i h = (res, st')"
proof (cases "i \<in> house_id ` set st")
  case True
  from first_match_split [OF True] obtain pre x post
    where st: "st = pre @ x # post" and x: "house_id x = i"
      and pre: "i \<notin> house_id ` set pre"
    by blast
  have "res = Inr (set_id i h)" and st': "st' = pre @ set_id i h # post"
    using assms update_house_present [OF pre x, of post h] by (simp_all add: st)
  moreover have "update_house (pre @ set_id i h # post) i h =
      (Inr (set_id i h), pre @ set_id i h # post)"
    by (rule update_house_present [OF pre]) simp
  ultimately show ?thesis by simp
next
  case False
  with assms have "res = Inl not_found" "st' = st"
    by (simp_all add: update_house_absent)
  with False show ?thesis
    by (simp add: update_house_absent)
qed



theorem update_house_idempotent_witness:
  "update_house sample_store 0 dallas_body =
     (Inr (set_id 0 dallas_body), sample_store[0 := set_id 0 dallas_body]) \<and>
   update_house (sample_store[0 := set_id 0 dallas_body]) 0 dallas_body =
     (Inr (set_id 0 dallas_body), sample_store[0 := set_id 0 dallas_body])"
  using update_house_idempotent [OF update_sample_eval] update_sample_eval by simp

text \<open>
  Claim C7. In a store the program can reach (ids are pairwise distinct there), once
  \<open>delete_house\<close> has succeeded for an id, \<open>get_house\<close> answers 404 for it and no answer of
  \<open>get_houses\<close>, whatever the filters and the page, holds a record with it; reading, updating
  and deleting do not bring the id back (only a later \<open>create_house\<close> can).
\<close>

theorem deleted_id_is_gone:
  assumes "reachable st" and "delete_house st i = (Inr msg, st')"
  shows "get_house st' i = (Inl (HTTPException 404 ''House not found''), st') \<and>
         (\<forall>lower page sz c z lo hi rs.
            fst (get_houses lower st' page sz c z lo hi) = Inr rs \<longrightarrow> i \<notin> house_id ` set rs) \<and>
         (\<forall>lower page sz c z lo hi. snd (get_houses lower st' page sz c z lo hi) = st') \<and>
         (\<forall>j h. i \<notin> house_id ` set (snd (update_house st' j h))) \<and>
         (\<forall>j. i \<notin> house_id ` set (snd (delete_house st' j)))"
proof -
  have gone: "i \<notin> house_id ` set st'"
    using reachable_distinct [OF assms(1)] assms(2) by (rule delete_removes_id)
  have "get_house st' i = (Inl (HTTPException 404 ''House not found''), st')"
    using get_house_absent [OF gone] by (simp add: not_found_def)
  moreover have "i \<notin> house_id ` set rs"
    if "fst (get_houses lower st' page sz c z lo hi) = Inr rs" for lower page sz c z lo hi rs
    using get_houses_from_store [OF that] gone by blast
  moreover have "i \<notin> house_id ` set (snd (update_house st' j h))" for j h
  proof -
    have "house_id ` set (snd (update_house st' j h)) = set (map house_id st')"
      unfolding ids_update [symmetric, of st' j h] by simp
    with gone show ?thesis by simp
  qed
  moreover have "i \<notin> house_id ` set (snd (delete_house st' j))" for j
    using delete_keeps_subset [of st' j] gone by blast
  ultimately show ?thesis
    by (simp add: get_houses_store)
qed

theorem deleted_id_is_gone_witness:
  "reachable sample_store \<and>
   delete_house sample_store 1 =
     (Inr ''House deleted'',
      [set_id 0 (sample_house ''Austin'' 200000), set_id 2 (sample_house ''SEATTLE'' 350000)]) \<and>
   fst (get_house (snd (delete_house sample_store 1)) 1) =
     Inl (HTTPException 404 ''House not found'') \<and>
   fst (get_houses ascii_lower (snd (delete_house sample_store 1)) 1 10 None None None None) =
     Inr [set_id 0 (sample_house ''Austin'' 200000), set_id 2 (sample_house ''SEATTLE'' 350000)] \<and>
   1 \<notin> house_id `
     set [set_id 0 (sample_house ''Austin'' 200000), set_id 2 (sample_house ''SEATTLE'' 350000)]"
proof -
  let ?st' = "[set_id 0 (sample_house ''Austin'' 200000), set_id 2 (sample_house ''SEATTLE'' 350000)]"
  have r: "reachable sample_store"
    unfolding sample_store_def by (rule reachable.loaded)
  have d: "delete_house sample_store 1 = (Inr ''House deleted'', ?st')"
    by (simp add: delete_house_def sample_store_eval)
  have l: "fst (get_houses ascii_lower ?st' 1 10 None None None None) = Inr ?st'"
    by (simp add: get_houses_def filter_city_def filter_statezip_def filter_price_min_def
        filter_price_max_def py_slice_def adjust_index_def Let_def)
  from deleted_id_is_gone [OF r d] l
  have "fst (get_house ?st' 1) = Inl (HTTPException 404 ''House not found'')"
    and "1 \<notin> house_id ` set ?st'"
    by auto
  with r d l show ?thesis by simp
qed

text \<open>
  Claim C2 as stated: an id removed by \<open>delete_house\<close> is never assigned again, also when the
  deleted record held the largest id. It fails: on a store whose largest id is 2,
  \<open>create_house\<close> assigns 3; after deleting record 3 the next \<open>create_house\<close> assigns 3 again.
\<close>

theorem deleted_max_id_reused_counterexample:
  "fst (create_house sample_store dallas_body) = Inr (set_id 3 dallas_body) \<and>
   fst (delete_house (snd (create_house sample_store dallas_body)) 3) = Inr ''House deleted'' \<and>
   fst (create_house (snd (delete_house (snd (create_house sample_store dallas_body)) 3))
          (sample_house ''Reno'' 1)) = Inr (set_id 3 (sample_house ''Reno'' 1))"
proof -
  have ne: "sample_store \<noteq> []" and mx: "Max (house_id ` set sample_store) = 2"
    by (simp_all add: sample_store_eval)
  have c: "create_house sample_store h = (Inr (set_id 3 h), sample_store @ [set_id 3 h])" for h
    using create_house_nonempty [OF ne, of h] by (simp add: mx)
  have d: "delete_house (sample_store @ [set_id 3 h]) 3 = (Inr ''House deleted'', sample_store)"
    for h :: House
    using delete_created [OF ne, of h] by (simp add: mx)
  show ?thesis by (simp add: c d)
qed

text \<open>
  Claim C2, amended. \<open>create_house\<close> assigns an id above every id that is in the store at
  that moment, so a deleted id is not assigned while a record with the same or a larger id
  remains: after deleting an id below the largest one, the next \<open>create_house\<close> assigns the
  old maximum plus one. A deleted id above all remaining ids can come back: after creating
  on a store with maximum \<open>M\<close> (id \<open>M + 1\<close>) and deleting that record, the store is as
  before and the next \<open>create_house\<close> assigns \<open>M + 1\<close> again.
\<close>

theorem create_house_id_above_store:
  "(create_house st h = (Inr r, st') \<longrightarrow> (\<forall>x\<in>set st. house_id x < house_id r)) \<and>
   (delete_house st d = (Inr msg, st1) \<and> d < Max (house_id ` set st) \<longrightarrow>
      fst (create_house st1 h) = Inr (set_id (Max (house_id ` set st) + 1) h)) \<and>
   (st \<noteq> [] \<longrightarrow>
      fst (create_house st h) = Inr (set_id (Max (house_id ` set st) + 1) h) \<and>
      delete_house (snd (create_house st h)) (Max (house_id ` set st) + 1) =
        (Inr ''House deleted'', st) \<and>
      fst (create_house st h2) = Inr (set_id (Max (house_id ` set st) + 1) h2))"
proof (intro conjI impI)
  assume c: "create_house st h = (Inr r, st')"
  then have ne: "st \<noteq> []"
    by (auto simp: create_house_def)
  with c have "house_id r = Max (house_id ` set st) + 1"
    by (auto simp: create_house_nonempty)
  then show "\<forall>x\<in>set st. house_id x < house_id r"
    using ids_below_new [of _ st] by simp
next
  assume "delete_house st d = (Inr msg, st1) \<and> d < Max (house_id ` set st)"
  then have "delete_house st d = (Inr msg, st1)" and "d < Max (house_id ` set st)"
    by simp_all
  then have "st1 \<noteq> [] \<and> Max (house_id ` set st1) = Max (house_id ` set st)"
    by (rule Max_ids_after_delete)
  then show "fst (create_house st1 h) = Inr (set_id (Max (house_id ` set st) + 1) h)"
    by (simp add: create_house_nonempty)
next
  assume "st \<noteq> []"
  then show "fst (create_house st h) = Inr (set_id (Max (house_id ` set st) + 1) h)"
    by (simp add: create_house_nonempty)
next
  assume "st \<noteq> []"
  then show "delete_house (snd (create_house st h)) (Max (house_id ` set st) + 1) =
      (Inr ''House deleted'', st)"
    by (simp add: create_house_nonempty delete_created)
next
  assume "st \<noteq> []"
  then show "fst (create_house st h2) = Inr (set_id (Max (house_id ` set st) + 1) h2)"
    by (simp add: create_house_nonempty)
qed

theorem create_house_id_above_store_witness:
  "create_house sample_store dallas_body =
     (Inr (set_id 3 dallas_body), sample_store @ [set_id 3 dallas_body]) \<and>
   list_all (\<lambda>x. house_id x < 3) sample_store \<and>
   sample_store \<noteq> [] \<and> (1::int) < Max (house_id ` set sample_store) \<and>
   delete_house sample_store 1 =
     (Inr ''House deleted'',
      [set_id 0 (sample_house ''Austin'' 200000), set_id 2 (sample_house ''SEATTLE'' 350000)]) \<and>
   fst (create_house
          [set_id 0 (sample_house ''Austin'' 200000), set_id 2 (sample_house ''SEATTLE'' 350000)]
          dallas_body) = Inr (set_id 3 dallas_body) \<and>
   delete_house (snd (create_house sample_store dallas_body)) 3 =
     (Inr ''House deleted'', sample_store)"
proof -
  let ?st1 = "[set_id 0 (sample_house ''Austin'' 200000), set_id 2 (sample_house ''SEATTLE'' 350000)]"
  have ne: "sample_store \<noteq> []" and mx: "Max (house_id ` set sample_store) = 2"
    by (simp_all add: sample_store_eval)
  have c: "create_house sample_store dallas_body =
      (Inr (set_id 3 dallas_body), sample_store @ [set_id 3 dallas_body])"
    using create_house_nonempty [OF ne, of dallas_body] by (simp add: mx)
  have d: "delete_house sample_store 1 = (Inr ''House deleted'', ?st1)"
    by (simp add: delete_house_def sample_store_eval)
  from create_house_id_above_store
    [of sample_store dallas_body "set_id 3 dallas_body" "sample_store @ [set_id 3 dallas_body]"
      1 "''House deleted''" ?st1 dallas_body] ne c d
  have "list_all (\<lambda>x. house_id x < 3) sample_store"
    and "fst (create_house ?st1 dallas_body) = Inr (set_id 3 dallas_body)"
    and "delete_house (snd (create_house sample_store dallas_body)) 3 =
       (Inr ''House deleted'', sample_store)"
    by (simp_all add: mx list_all_iff)
  with ne c d show ?thesis by (simp add: mx)
qed

text \<open>
  Claim C3 as stated: for every combination of supplied filters the answer is the slice of
  the sequence filtered by them. It fails for a statezip supplied as the empty string:
  no record of the store has the empty statezip, so the sequence filtered by it is empty
  and so is its slice, while \<open>get_houses\<close> skips the filter (\<open>if statezip:\<close>) and returns the
  first page of the whole store.
\<close>

theorem get_houses_empty_statezip_counterexample:
  "fst (get_houses ascii_lower sample_store 1 10 None (Some '''') None None) = Inr sample_store \<and>
   sample_store \<noteq> [] \<and>
   py_slice (filter (matches_supplied ascii_lower None (Some '''') None None) sample_store)
     ((1 - 1) * 10) ((1 - 1) * 10 + 10) = []"
proof -
  have "filter (matches_supplied ascii_lower None (Some '''') None None) sample_store = []"
    by (simp add: matches_supplied_def sample_store_eval sample_house_def ascii_lower_def)
  moreover have "get_houses ascii_lower sample_store 1 10 None (Some '''') None None =
      (Inr sample_store, sample_store)"
    by (simp add: get_houses_def filter_city_def filter_statezip_def filter_price_min_def
        filter_price_max_def sample_store_eval py_slice_def adjust_index_def Let_def)
  ultimately show ?thesis
    by (simp add: py_slice_def adjust_index_def) (simp add: sample_store_eval)
qed

text \<open>
  Claim C3, amended. For \<open>page > 0\<close> and \<open>size \<le> 100\<close>, \<open>get_houses\<close> returns the Python slice
  \<open>[(page-1)*size : (page-1)*size+size]\<close> of the records that pass all filters in force, in
  store order, and never an error; a city or statezip supplied as the empty string is not
  in force. For \<open>size \<ge> 0\<close> these are the records at the positions from \<open>(page-1)*size\<close> up
  to, but not including, \<open>(page-1)*size+size\<close>, as far as they exist; the result is empty
  when the start is at or beyond the end of the filtered sequence. With no filter, page 1
  and size 10 on a store of at least ten records give ten records, those at positions 0
  to 9.
\<close>

theorem get_houses_page:
  assumes "0 < page" and "sz \<le> 100"
  shows "let F = filter (selected lower c z lo hi) st;
             start = (page - 1) * sz;
             R = py_slice F start (start + sz)
         in get_houses lower st page sz c z lo hi = (Inr R, st) \<and>
            (0 \<le> sz \<longrightarrow>
               length R = min (nat sz) (length F - nat start) \<and>
               (\<forall>k<length R. R ! k = F ! (nat start + k))) \<and>
            (int (length F) \<le> start \<longrightarrow> R = []) \<and>
            (10 \<le> length st \<longrightarrow>
               fst (get_houses lower st 1 10 None None None None) = Inr (take 10 st) \<and>
               length (take 10 st) = 10 \<and> (\<forall>k<10. take 10 st ! k = st ! k))"
proof -
  define F where "F = filter (selected lower c z lo hi) st"
  define start where "start = (page - 1) * sz"
  define R where "R = py_slice F start (start + sz)"
  have res: "get_houses lower st page sz c z lo hi = (Inr R, st)"
    using get_houses_valid [OF assms] by (simp add: F_def start_def R_def)
  have pos: "length R = min (nat sz) (length F - nat start) \<and>
             (\<forall>k<length R. R ! k = F ! (nat start + k))" if "0 \<le> sz"
  proof -
    from assms(1) that have "0 \<le> start"
      by (simp add: start_def)
    from py_slice_nonneg [OF this that] have R: "R = take (nat sz) (drop (nat start) F)"
      by (simp add: R_def)
    show ?thesis
      unfolding R by (auto simp: min.commute)
  qed
  have out: "R = []" if "int (length F) \<le> start"
    unfolding R_def using that by (rule py_slice_beyond)
  have first: "fst (get_houses lower st 1 10 None None None None) = Inr (take 10 st) \<and>
               length (take 10 st) = 10 \<and> (\<forall>k<10. take 10 st ! k = st ! k)"
    if "10 \<le> length st"
  proof -
    have "get_houses lower st 1 10 None None None None = (Inr (py_slice st 0 (0 + 10)), st)"
      using get_houses_valid [of 1 10 lower st None None None None] by (simp add: selected_none)
    also have "py_slice st 0 (0 + 10) = take 10 st"
      using py_slice_nonneg [of 0 10 st] by simp
    finally show ?thesis
      using that by simp
  qed
  from res pos out first show ?thesis
    unfolding Let_def F_def [symmetric] start_def [symmetric] R_def [symmetric]
    by blast
qed

theorem get_houses_page_witness:
  "(0::int) < 1 \<and> (10::int) \<le> 100 \<and> 10 \<le> length big_store \<and>
   get_houses ascii_lower big_store 1 10 None None None None = (Inr (take 10 big_store), big_store) \<and>
   length (take 10 big_store) = 10 \<and>
   get_houses ascii_lower sample_store 2 2 None None None None =
     (Inr [set_id 2 (sample_house ''SEATTLE'' 350000)], sample_store) \<and>
   get_houses ascii_lower sample_store 3 2 None None None None = (Inr [], sample_store)"
proof -
  have len: "10 \<le> length big_store"
    by (simp add: length_big_store)
  have p: "(0::int) < 1" "(10::int) \<le> 100"
    by simp_all
  from get_houses_page [where page = 1 and sz = 10 and c = None and z = None and lo = None
      and hi = None and st = big_store and lower = ascii_lower, OF p]
  have "10 \<le> length big_store \<longrightarrow>
      fst (get_houses ascii_lower big_store 1 10 None None None None) = Inr (take 10 big_store)"
    unfolding Let_def by blast
  with len have a: "fst (get_houses ascii_lower big_store 1 10 None None None None) = Inr (take 10 big_store)"
    by blast
  have b: "snd (get_houses ascii_lower big_store 1 10 None None None None) = big_store"
    by (rule get_houses_store)
  from a b have first: "get_houses ascii_lower big_store 1 10 None None None None =
      (Inr (take 10 big_store), big_store)"
    by (simp add: prod_eq_iff)
  from get_houses_page [of 2 2 ascii_lower None None None None sample_store]
  have second: "get_houses ascii_lower sample_store 2 2 None None None None =
      (Inr [set_id 2 (sample_house ''SEATTLE'' 350000)], sample_store)"
    by (simp add: Let_def selected_none)
      (simp add: sample_store_eval py_slice_def adjust_index_def)
  from get_houses_page [of 3 2 ascii_lower None None None None sample_store]
  have third: "get_houses ascii_lower sample_store 3 2 None None None None = (Inr [], sample_store)"
    by (simp add: Let_def selected_none)
      (simp add: sample_store_eval py_slice_def adjust_index_def)
  from len first second third show ?thesis
    by (simp add: length_big_store)
qed

text \<open>
  Claim C4 as stated: every returned record matches every supplied filter. It fails for a
  city supplied as the empty string: \<open>if city:\<close> is false for it, no city filter runs, and
  the records returned do not have the empty city.
\<close>

theorem get_houses_empty_city_counterexample:
  "fst (get_houses ascii_lower sample_store 1 10 (Some '''') None None None) = Inr sample_store \<and>
   sample_store ! 0 = set_id 0 (sample_house ''Austin'' 200000) \<and>
   ascii_lower (city (sample_store ! 0)) = ''austin'' \<and> ascii_lower '''' = '''' \<and>
   ascii_lower (city (sample_store ! 0)) \<noteq> ascii_lower ''''"
  by (simp add: empty_city_query_eval)
    (simp add: sample_store_eval sample_house_def ascii_lower_def ascii_lower_char_def)

text \<open>
  Claim C4, amended. Every record returned by \<open>get_houses\<close> is a record of the store and
  satisfies all filters together: its city equals a supplied non-empty \<open>city\<close> after
  lower-casing both, likewise its statezip for a supplied non-empty \<open>statezip\<close>, its price is
  at least a supplied \<open>price_min\<close> and at most a supplied \<open>price_max\<close>, bounds included.
\<close>

theorem get_houses_filters_conjunctive:
  assumes "fst (get_houses lower st page sz c z lo hi) = Inr rs" and "r \<in> set rs"
  shows "r \<in> set st \<and>
         (\<forall>s. c = Some s \<and> s \<noteq> [] \<longrightarrow> lower (city r) = lower s) \<and>
         (\<forall>s. z = Some s \<and> s \<noteq> [] \<longrightarrow> lower (statezip r) = lower s) \<and>
         (\<forall>l. lo = Some l \<longrightarrow> float_le l (price r)) \<and>
         (\<forall>h. hi = Some h \<longrightarrow> float_le (price r) h)"
proof -
  from assms(1) have valid: "0 < page" "sz \<le> 100"
    by (auto simp: get_houses_def split: if_splits)
  from get_houses_valid [OF valid, of lower st c z lo hi] assms(1)
  have "rs = py_slice (filter (selected lower c z lo hi) st) ((page - 1) * sz) ((page - 1) * sz + sz)"
    by simp
  with assms(2) set_py_slice [of "filter (selected lower c z lo hi) st"]
  have "r \<in> set (filter (selected lower c z lo hi) st)"
    by blast
  then have "r \<in> set st" and "selected lower c z lo hi r"
    by simp_all
  then show ?thesis
    by (auto simp: selected_def float_ge_def)
qed

theorem get_houses_filters_conjunctive_witness:
  "fst (get_houses ascii_lower sample_store 1 10 (Some ''Seattle'') None (Some (Finite 300000))
          (Some (Finite 350000))) = Inr [set_id 2 (sample_house ''SEATTLE'' 350000)] \<and>
   ascii_lower (city (set_id 2 (sample_house ''SEATTLE'' 350000))) = ascii_lower ''Seattle'' \<and>
   float_le (Finite 300000) (price (set_id 2 (sample_house ''SEATTLE'' 350000))) \<and>
   float_le (price (set_id 2 (sample_house ''SEATTLE'' 350000))) (Finite 350000)"
proof -
  have q: "fst (get_houses ascii_lower sample_store 1 10 (Some ''Seattle'') None (Some (Finite 300000))
          (Some (Finite 350000))) = Inr [set_id 2 (sample_house ''SEATTLE'' 350000)]"
    by (simp add: seattle_query_eval)
  have m: "set_id 2 (sample_house ''SEATTLE'' 350000) \<in>
      set [set_id 2 (sample_house ''SEATTLE'' 350000)]"
    by simp
  from get_houses_filters_conjunctive [OF q m] q show ?thesis
    by simp
qed

text \<open>
  Claim C10. A \<open>city\<close> (or \<open>statezip\<close>) given as the empty string filters nothing: the answer
  is the one given when the parameter is absent.
\<close>

theorem get_houses_empty_string_filter:
  "get_houses lower st page sz (Some '''') z lo hi = get_houses lower st page sz None z lo hi \<and>
   get_houses lower st page sz c (Some '''') lo hi = get_houses lower st page sz c None lo hi"
  by (simp add: get_houses_def filter_city_def filter_statezip_def)

theorem get_houses_empty_string_filter_witness:
  "get_houses ascii_lower sample_store 1 10 None None None None = (Inr sample_store, sample_store) \<and>
   get_houses ascii_lower sample_store 1 10 None (Some '''') None None = (Inr sample_store, sample_store)"
  using get_houses_empty_string_filter [of ascii_lower sample_store 1 10 None None None None]
    empty_city_query_eval
  by simp

end
